theory Spec2Isabelle
  imports Main "HOL-Library.Multiset"
begin

section \<open>Urdle: the daily word, the persisted record and the guess engine\<close>

text \<open>
  The program is three JavaScript files: \<^verbatim>\<open>words.js\<close> (the catalog \<^verbatim>\<open>WORDS\<close>),
  \<^verbatim>\<open>daily.js\<close> (today's word and the \<^verbatim>\<open>localStorage\<close> record) and the game script
  (evaluation, input handling, submission, restoration, the hint icon).
  Drawing on the page (tiles, history rows, key colours, the countdown banner) takes no
  part in any decision and is left out; everything else is modelled statement by statement.
\<close>

subsection \<open>JavaScript values\<close>

text \<open>
  A string is the sequence of its Unicode code points, which is what \<^verbatim>\<open>Array.from\<close>
  iterates over; a letter is one code point.
\<close>

type_synonym letter = nat
type_synonym jstring = "letter list"

definition ascii :: "string \<Rightarrow> jstring" where
  "ascii cs = map of_char cs"

text \<open>A number that arithmetic on \<^verbatim>\<open>undefined\<close> or a zero divisor can turn into \<^verbatim>\<open>NaN\<close>.\<close>

datatype jsnum = Num int | NaN

datatype js_error = TypeError | SyntaxError | SecurityError | ConfigurationError

text \<open>
  \<^verbatim>\<open>xs[i]\<close>: reading an array outside its range gives \<^verbatim>\<open>undefined\<close>, here \<open>None\<close>.
\<close>

definition at :: "'a list \<Rightarrow> nat \<Rightarrow> 'a option" where
  "at xs i = (if i < length xs then Some (xs ! i) else None)"

text \<open>
  \<^verbatim>\<open>xs[n]\<close> for a number \<open>n\<close>: a negative index, an index past the end and \<^verbatim>\<open>NaN\<close>
  name no element.
\<close>

definition index_at :: "'a list \<Rightarrow> jsnum \<Rightarrow> 'a option" where
  "index_at xs n =
     (case n of
        NaN \<Rightarrow> None
      | Num i \<Rightarrow> if 0 \<le> i \<and> i < int (length xs) then Some (xs ! nat i) else None)"

text \<open>
  \<^verbatim>\<open>a % b\<close> for an integer \<open>b\<close>: the remainder of the division that truncates towards
  zero, so it has the sign of \<open>a\<close>; \<^verbatim>\<open>a % 0\<close> and \<^verbatim>\<open>NaN % b\<close> are \<^verbatim>\<open>NaN\<close>.
\<close>

definition js_rem :: "jsnum \<Rightarrow> int \<Rightarrow> jsnum" where
  "js_rem x b =
     (case x of
        NaN \<Rightarrow> NaN
      | Num a \<Rightarrow> if b = 0 then NaN else Num (sgn a * (\<bar>a\<bar> mod \<bar>b\<bar>)))"

text \<open>
  \<^verbatim>\<open>Math.floor(x / d)\<close> for a time value \<open>x\<close> and a positive integer \<open>d\<close>. A time value is
  \<^verbatim>\<open>NaN\<close> or a whole number of milliseconds of magnitude at most 8.64e15, for which the
  floating-point quotient by 86400000 has the floor of the exact quotient.
\<close>

definition Math_floor_div :: "jsnum \<Rightarrow> int \<Rightarrow> jsnum" where
  "Math_floor_div x d = (case x of NaN \<Rightarrow> NaN | Num a \<Rightarrow> Num (a div d))"

subsection \<open>words.js\<close>

definition WORDS :: "jstring list" where
  "WORDS =
    [[1591, 1575, 1729, 1585], [1605, 1606, 1583, 1585], [1576, 1575, 1583, 1604],
     [1605, 1575, 1580, 1583], [1580, 1575, 1729, 1604], [1705, 1575, 1605, 1604],
     [1593, 1575, 1583, 1604], [1589, 1575, 1576, 1585], [1606, 1575, 1589, 1585],
     [1581, 1575, 1605, 1583], [1602, 1575, 1587, 1605], [1608, 1575, 1581, 1583],
     [1588, 1575, 1705, 1585], [1594, 1575, 1601, 1604], [1601, 1575, 1590, 1604],
     [1582, 1575, 1604, 1583], [1587, 1575, 1604, 1605], [1581, 1575, 1590, 1585],
     [1578, 1575, 1580, 1585], [1586, 1575, 1729, 1583]]"

subsection \<open>daily.js: today's word\<close>

text \<open>
  \<^verbatim>\<open>getUSToday()\<close> formats the clock's date in \<^verbatim>\<open>America/New_York\<close> as
  \<^verbatim>\<open>YYYY-MM-DD\<close>. The clock is the environment's, so the date is an argument
  \<open>today\<close> of every function that calls \<^verbatim>\<open>getUSToday\<close>; a \<open>dayKey\<close> stands for the
  string with these three fields.
\<close>

datatype dayKey = DayKey (year: nat) (month: nat) (day: nat)

text \<open>
  The number of days from 1970-01-01 to a civil date (proleptic Gregorian calendar,
  negative before 1970).
\<close>

definition daysFromCivil :: "dayKey \<Rightarrow> int" where
  "daysFromCivil k =
     (let y = int (year k) - (if month k \<le> 2 then 1 else 0);
          era = y div 400;
          yoe = y - era * 400;
          mp = (if month k > 2 then int (month k) - 3 else int (month k) + 9);
          doy = (153 * mp + 2) div 5 + int (day k) - 1;
          doe = yoe * 365 + yoe div 4 - yoe div 100 + doy
      in era * 146097 + doe - 719468)"

text \<open>
  The runtime's \<^verbatim>\<open>new Date(today).getTime()\<close>. With a year of four digits the string is
  in the ISO date-only format \<^verbatim>\<open>YYYY-MM-DD\<close>, which is read as midnight UTC of that date.
  A year of more or fewer digits is outside that format as soon as it is printed with the
  digits it has, and what the runtime then makes of the string is left to the engine (local
  midnight, another time value, or \<^verbatim>\<open>NaN\<close>): for such years the time value is the argument
  \<open>legacy\<close>, whatever it is.
\<close>

definition iso_date :: "dayKey \<Rightarrow> bool" where
  "iso_date k \<longleftrightarrow> 1000 \<le> year k \<and> year k \<le> 9999"

definition Date_getTime :: "(dayKey \<Rightarrow> jsnum) \<Rightarrow> dayKey \<Rightarrow> jsnum" where
  "Date_getTime legacy k =
     (if iso_date k then Num (daysFromCivil k * 86400000) else legacy k)"

text \<open>An engine that reads no string outside the ISO format.\<close>

definition rejecting :: "dayKey \<Rightarrow> jsnum" where
  "rejecting k = NaN"

text \<open>
  \<^verbatim>\<open>getDailyWord()\<close>. \<open>None\<close> is \<^verbatim>\<open>undefined\<close>, which is what indexing \<^verbatim>\<open>WORDS\<close>
  outside its range returns. The catalog is an argument so that the claims about any
  catalog can be stated; the program's own is \<open>WORDS\<close>.
\<close>

definition getDailyWord :: "jstring list \<Rightarrow> (dayKey \<Rightarrow> jsnum) \<Rightarrow> dayKey \<Rightarrow> jstring option" where
  "getDailyWord catalog legacy today =
     (let epoch = Date_getTime legacy today;
          dayIndex = Math_floor_div epoch 86400000
      in index_at catalog (js_rem dayIndex (int (length catalog))))"

subsection \<open>daily.js: the persisted record\<close>

text \<open>
  The object \<^verbatim>\<open>{ date, attempts, gameOver, won }\<close>. A field is \<open>None\<close> when the
  property is missing (for \<open>date\<close>: missing or not a \<^verbatim>\<open>YYYY-MM-DD\<close> string, which
  compares unequal to every day key in the same way).
\<close>

record saved =
  date :: "dayKey option"
  saved_attempts :: "jstring list option"
  saved_gameOver :: "bool option"
  saved_won :: "bool option"

text \<open>
  What \<^verbatim>\<open>JSON.parse\<close> returns: \<^verbatim>\<open>null\<close>, a value with no properties of interest
  (number, boolean, string, array), or an object.
\<close>

datatype parsed = JNull | JOther | JObject saved

text \<open>
  The string stored under \<^verbatim>\<open>urdle_daily\<close>, by what the runtime makes of it: the empty
  string, text that \<^verbatim>\<open>JSON.parse\<close> rejects, or text that parses to a value.
  \<^verbatim>\<open>JSON.stringify\<close> of a record of strings and booleans is text that parses back to
  the same record.
\<close>

datatype item = Empty_string | Malformed | Json parsed

text \<open>
  \<^verbatim>\<open>localStorage\<close>, reduced to the one key the program uses: \<open>Denied\<close> when every
  access throws (storage disabled by the browser), else the slot, \<open>None\<close> when unset.
\<close>

datatype storage = Denied | Slot "item option"

definition getItem :: "storage \<Rightarrow> js_error + item option" where
  "getItem st = (case st of Denied \<Rightarrow> Inl SecurityError | Slot v \<Rightarrow> Inr v)"

definition setItem :: "storage \<Rightarrow> item \<Rightarrow> js_error + storage" where
  "setItem st v = (case st of Denied \<Rightarrow> Inl SecurityError | Slot _ \<Rightarrow> Inr (Slot (Some v)))"

definition JSON_parse :: "item \<Rightarrow> js_error + parsed" where
  "JSON_parse raw =
     (case raw of Empty_string \<Rightarrow> Inl SyntaxError | Malformed \<Rightarrow> Inl SyntaxError | Json v \<Rightarrow> Inr v)"

definition JSON_stringify :: "saved \<Rightarrow> item" where
  "JSON_stringify data = Json (JObject data)"

text \<open>\<^verbatim>\<open>data.date\<close>: a property of \<^verbatim>\<open>null\<close> cannot be read.\<close>

definition date_of :: "parsed \<Rightarrow> js_error + dayKey option" where
  "date_of data =
     (case data of JNull \<Rightarrow> Inl TypeError | JOther \<Rightarrow> Inr None | JObject r \<Rightarrow> Inr (date r))"

text \<open>\<^verbatim>\<open>loadDailyState()\<close>; \<open>None\<close> is the \<^verbatim>\<open>null\<close> it returns.\<close>

definition loadDailyState :: "storage \<Rightarrow> dayKey \<Rightarrow> parsed option" where
  "loadDailyState st today =
     (case getItem st of
        Inl e \<Rightarrow> None
      | Inr None \<Rightarrow> None
      | Inr (Some raw) \<Rightarrow>
          if raw = Empty_string then None
          else
            (case JSON_parse raw of
               Inl e \<Rightarrow> None
             | Inr data \<Rightarrow>
                 (case date_of data of
                    Inl e \<Rightarrow> None
                  | Inr d \<Rightarrow> if d \<noteq> Some today then None else Some data)))"

definition saveDailyState ::
  "storage \<Rightarrow> dayKey \<Rightarrow> jstring list \<Rightarrow> bool \<Rightarrow> bool \<Rightarrow> js_error + storage" where
  "saveDailyState st today atts over w =
     (let data = \<lparr> date = Some today, saved_attempts = Some atts,
                    saved_gameOver = Some over, saved_won = Some w \<rparr>
      in setItem st (JSON_stringify data))"

definition markPlayed :: "storage \<Rightarrow> dayKey \<Rightarrow> jstring list \<Rightarrow> bool \<Rightarrow> js_error + storage" where
  "markPlayed st today atts w = saveDailyState st today atts True w"

subsection \<open>The game script: constants and state\<close>

definition WORD_LENGTH :: nat where
  "WORD_LENGTH = 4"

definition MAX_ATTEMPTS :: nat where
  "MAX_ATTEMPTS = 5"

definition HINT_MAGIC_NUMBER :: nat where
  "HINT_MAGIC_NUMBER = 18"

datatype status = Correct | Present | Absent

text \<open>
  The script's variables, and with them the three things outside it that its handlers
  change: the text of the toast on display, the result callbacks that \<^verbatim>\<open>submitGuess\<close>
  has handed to \<^verbatim>\<open>setTimeout\<close> and that have not run yet (all with the same delay,
  so they run in the order they were scheduled), and the storage.
\<close>

record game =
  secretWord :: jstring
  secretLetters :: "letter list"
  currentGuess :: "jstring list"
  attempts :: "jstring list"
  evaluations :: "status list list"
  currentRow :: nat
  gameOver :: bool
  won :: bool
  hintClickCount :: nat
  toast :: "jstring option"
  timers :: "(jstring \<times> status list) list"
  localStorage :: storage

definition splitUrdu :: "jstring \<Rightarrow> letter list" where
  "splitUrdu word = word"

definition showToast :: "jstring \<Rightarrow> game \<Rightarrow> game" where
  "showToast message s = s\<lparr>toast := Some message\<rparr>"

subsection \<open>The hint icon\<close>

definition msg_hint_magic :: jstring where
  "msg_hint_magic =
     ascii ''Mubarak number(part of it)!!!! if you click aik aur baar toh answer ajaye ga so...''"

definition msg_hint_none :: jstring where
  "msg_hint_none =
     ascii ''Hiii '' @ [129402] @ ascii '' + '' @ [128037]
       @ ascii '' no hints for you sorry!...but i believe in you bohat '' @ [10084, 65039]
       @ ascii '' You can do it ''"

definition handleHintClick :: "game \<Rightarrow> game" where
  "handleHintClick s =
     (let s = s\<lparr>hintClickCount := hintClickCount s + 1\<rparr>
      in if hintClickCount s = HINT_MAGIC_NUMBER then showToast msg_hint_magic s
         else if hintClickCount s > HINT_MAGIC_NUMBER then
           (showToast (ascii ''jawab is '' @ secretWord s) s)\<lparr>hintClickCount := 0\<rparr>
         else showToast msg_hint_none s)"

subsection \<open>Tile evaluation\<close>

text \<open>
  The frequency object \<^verbatim>\<open>freq\<close>. Its keys are letters; a read or write with an
  \<^verbatim>\<open>undefined\<close> letter goes to the property named \<^verbatim>\<open>"undefined"\<close>, the key \<open>None\<close>.
  A key with no entry reads as \<^verbatim>\<open>undefined\<close>.
\<close>

type_synonym freq = "letter option \<Rightarrow> jsnum option"

text \<open>\<^verbatim>\<open>freq[letter] = (freq[letter] || 0) + 1\<close>: \<^verbatim>\<open>undefined\<close>, \<^verbatim>\<open>NaN\<close> and 0 count as 0.\<close>

definition count_letter :: "letter \<Rightarrow> freq \<Rightarrow> freq" where
  "count_letter l f =
     f(Some l \<mapsto> (case f (Some l) of Some (Num n) \<Rightarrow> Num (n + 1) | _ \<Rightarrow> Num 1))"

text \<open>\<^verbatim>\<open>freq[k]--\<close>: decrementing \<^verbatim>\<open>undefined\<close> or \<^verbatim>\<open>NaN\<close> stores \<^verbatim>\<open>NaN\<close>.\<close>

definition decrement :: "letter option \<Rightarrow> freq \<Rightarrow> freq" where
  "decrement k f = f(k \<mapsto> (case f k of Some (Num n) \<Rightarrow> Num (n - 1) | _ \<Rightarrow> NaN))"

text \<open>\<^verbatim>\<open>freq[k] && freq[k] > 0\<close>.\<close>

definition remaining :: "freq \<Rightarrow> letter option \<Rightarrow> bool" where
  "remaining f k = (case f k of Some (Num n) \<Rightarrow> n \<noteq> 0 \<and> n > 0 | _ \<Rightarrow> False)"

definition first_pass ::
  "letter list \<Rightarrow> letter list \<Rightarrow> nat \<Rightarrow> status list \<times> freq \<Rightarrow> status list \<times> freq" where
  "first_pass guessLetters secret i rf =
     (case rf of (result, f) \<Rightarrow>
        if at guessLetters i = at secret i
        then (result[i := Correct], decrement (at guessLetters i) f)
        else (result, f))"

definition second_pass ::
  "letter list \<Rightarrow> nat \<Rightarrow> status list \<times> freq \<Rightarrow> status list \<times> freq" where
  "second_pass guessLetters i rf =
     (case rf of (result, f) \<Rightarrow>
        if result ! i = Correct then (result, f)
        else if remaining f (at guessLetters i)
        then (result[i := Present], decrement (at guessLetters i) f)
        else (result, f))"

text \<open>
  \<^verbatim>\<open>evaluateGuess(guess)\<close>; the script's \<^verbatim>\<open>secretLetters\<close> is the first argument. Both
  loops run over the indices below \<^verbatim>\<open>WORD_LENGTH\<close>, which are in range for \<open>result\<close>.
\<close>

definition evaluateGuess :: "letter list \<Rightarrow> jstring \<Rightarrow> status list" where
  "evaluateGuess secret guess =
     (let guessLetters = splitUrdu guess;
          result = replicate WORD_LENGTH Absent;
          f = fold count_letter secret Map.empty;
          rf = fold (first_pass guessLetters secret) [0..<WORD_LENGTH] (result, f);
          rf = fold (second_pass guessLetters) [0..<WORD_LENGTH] rf
      in fst rf)"

definition isWin :: "status list \<Rightarrow> bool" where
  "isWin evaluation = list_all (\<lambda>s. s = Correct) evaluation"

subsection \<open>Input handling and submission\<close>

definition msg_four_letters :: jstring where
  "msg_four_letters =
     [1670, 1575, 1585, 32, 1581, 1585, 1608, 1601, 32, 1583, 1585, 1580, 32,
      1705, 1585, 1740, 1722]"

definition msg_not_in_list :: jstring where
  "msg_not_in_list =
     [1740, 1729, 32, 1604, 1601, 1592, 32, 1601, 1729, 1585, 1587, 1578, 32,
      1605, 1740, 1722, 32, 1606, 1729, 1740, 1722, 32, 1729, 1746]"

definition msg_win :: jstring where
  "msg_win = [127881, 32, 1605, 1576, 1575, 1585, 1705, 32, 1729, 1608, 33]"

definition msg_loss :: "jstring \<Rightarrow> jstring" where
  "msg_loss w = ascii ''khair hogayiiiii '' @ [10084, 65039] @ ascii '', asal jawab was '' @ w"

text \<open>
  \<^verbatim>\<open>submitGuess()\<close> up to the point where it schedules its result: the two rejections
  show a toast and return; an accepted guess is evaluated at once and the callback that
  will record it is queued.
\<close>

definition submitGuess :: "jstring list \<Rightarrow> game \<Rightarrow> game" where
  "submitGuess catalog s =
     (if length (currentGuess s) \<noteq> WORD_LENGTH then showToast msg_four_letters s
      else
        let guessWord = concat (currentGuess s)
        in if guessWord \<notin> set catalog then showToast msg_not_in_list s
           else
             let evaluation = evaluateGuess (secretLetters s) guessWord
             in s\<lparr>timers := timers s @ [(guessWord, evaluation)]\<rparr>)"

text \<open>
  The callback of \<^verbatim>\<open>submitGuess\<close>, run when its timer fires. An exception thrown by the
  storage ends the callback where it is thrown, with the assignments made so far in place.
\<close>

definition recordResult :: "dayKey \<Rightarrow> jstring \<Rightarrow> status list \<Rightarrow> game \<Rightarrow> game" where
  "recordResult today guessWord evaluation s =
     (let s = s\<lparr>currentRow := currentRow s + 1\<rparr>;
          s = s\<lparr>attempts := attempts s @ [guessWord]\<rparr>;
          s = s\<lparr>evaluations := evaluations s @ [evaluation]\<rparr>
      in if isWin evaluation then
           let s = s\<lparr>gameOver := True, won := True\<rparr>
           in (case markPlayed (localStorage s) today (attempts s) True of
                 Inl e \<Rightarrow> s
               | Inr st \<Rightarrow>
                   let s = showToast msg_win (s\<lparr>localStorage := st\<rparr>)
                   in (case saveDailyState (localStorage s) today (attempts s) True True of
                         Inl e \<Rightarrow> s
                       | Inr st \<Rightarrow> s\<lparr>localStorage := st\<rparr>))
         else if currentRow s \<ge> MAX_ATTEMPTS then
           let s = s\<lparr>gameOver := True, won := False\<rparr>
           in (case markPlayed (localStorage s) today (attempts s) False of
                 Inl e \<Rightarrow> s
               | Inr st \<Rightarrow>
                   let s = showToast (msg_loss (secretWord s)) (s\<lparr>localStorage := st\<rparr>)
                   in (case saveDailyState (localStorage s) today (attempts s) True False of
                         Inl e \<Rightarrow> s
                       | Inr st \<Rightarrow> s\<lparr>localStorage := st\<rparr>))
         else
           let s = s\<lparr>currentGuess := []\<rparr>
           in (case saveDailyState (localStorage s) today (attempts s) False False of
                 Inl e \<Rightarrow> s
               | Inr st \<Rightarrow> s\<lparr>localStorage := st\<rparr>))"

text \<open>The oldest pending timer fires: its callback runs on the state of that moment.\<close>

definition fireTimer :: "dayKey \<Rightarrow> game \<Rightarrow> game" where
  "fireTimer today s =
     (case timers s of
        [] \<Rightarrow> s
      | (guessWord, evaluation) # rest \<Rightarrow> recordResult today guessWord evaluation (s\<lparr>timers := rest\<rparr>))"

text \<open>\<^verbatim>\<open>handleKey(letter)\<close>, the handler of the on-screen keys.\<close>

definition handleKey :: "jstring list \<Rightarrow> jstring \<Rightarrow> game \<Rightarrow> game" where
  "handleKey catalog letter s =
     (if gameOver s then s
      else if letter = ascii ''backspace'' then
        (if length (currentGuess s) > 0 then s\<lparr>currentGuess := butlast (currentGuess s)\<rparr> else s)
      else if letter = ascii ''enter'' then submitGuess catalog s
      else if length (currentGuess s) < WORD_LENGTH
      then s\<lparr>currentGuess := currentGuess s @ [letter]\<rparr>
      else s)"

text \<open>
  \<^verbatim>\<open>handlePhysicalKey(e)\<close> on \<^verbatim>\<open>e.key\<close>; \<open>onscreen\<close> says which strings are the
  \<^verbatim>\<open>data-letter\<close> of a key of the on-screen keyboard.
\<close>

definition handlePhysicalKey :: "jstring list \<Rightarrow> (jstring \<Rightarrow> bool) \<Rightarrow> jstring \<Rightarrow> game \<Rightarrow> game" where
  "handlePhysicalKey catalog onscreen key s =
     (if gameOver s then s
      else if key = ascii ''Enter'' then submitGuess catalog s
      else if key = ascii ''Backspace'' then handleKey catalog (ascii ''backspace'') s
      else if onscreen key then handleKey catalog key s
      else s)"

subsection \<open>State restoration and start-up\<close>

text \<open>\<^verbatim>\<open>restoreState(saved)\<close>; \<^verbatim>\<open>x || d\<close> takes \<open>d\<close> for a missing field and for \<^verbatim>\<open>false\<close>.\<close>

definition restoreState :: "saved \<Rightarrow> game \<Rightarrow> game" where
  "restoreState sv s =
     (let s = s\<lparr>attempts := (case saved_attempts sv of None \<Rightarrow> [] | Some a \<Rightarrow> a)\<rparr>;
          s = s\<lparr>gameOver := (case saved_gameOver sv of None \<Rightarrow> False | Some b \<Rightarrow> b)\<rparr>;
          s = s\<lparr>won := (case saved_won sv of None \<Rightarrow> False | Some b \<Rightarrow> b)\<rparr>;
          s = s\<lparr>currentRow := length (attempts s)\<rparr>;
          s = fold (\<lambda>i s. s\<lparr>evaluations :=
                      evaluations s @ [evaluateGuess (secretLetters s) (attempts s ! i)]\<rparr>)
                [0..<length (attempts s)] s
      in if gameOver s then s else s\<lparr>currentGuess := []\<rparr>)"

text \<open>The script's variables as they are declared.\<close>

definition initial :: "storage \<Rightarrow> game" where
  "initial st =
     \<lparr> secretWord = [], secretLetters = [], currentGuess = [], attempts = [],
       evaluations = [], currentRow = 0, gameOver = False, won = False,
       hintClickCount = 0, toast = None, timers = [], localStorage = st \<rparr>"

text \<open>
  The \<^verbatim>\<open>DOMContentLoaded\<close> handler, as far as the state goes. \<^verbatim>\<open>splitUrdu\<close> of an
  \<^verbatim>\<open>undefined\<close> word is \<^verbatim>\<open>Array.from(undefined)\<close>, which throws a \<^verbatim>\<open>TypeError\<close>
  and ends the handler.
\<close>

definition startGame ::
  "jstring list \<Rightarrow> (dayKey \<Rightarrow> jsnum) \<Rightarrow> dayKey \<Rightarrow> storage \<Rightarrow> js_error + game" where
  "startGame catalog legacy today st =
     (case getDailyWord catalog legacy today of
        None \<Rightarrow> Inl TypeError
      | Some w \<Rightarrow>
          let s = (initial st)\<lparr>secretWord := w, secretLetters := splitUrdu w\<rparr>
          in (case loadDailyState st today of
                Some (JObject sv) \<Rightarrow>
                  if date sv = Some today then Inr (restoreState sv s) else Inr s
              | _ \<Rightarrow> Inr s))"

subsection \<open>The specification's reference evaluation\<close>

text \<open>
  The two-pass algorithm in the specification's own words, on the multiset of the secret's
  letters. Pass 1 takes out of the multiset the letter of every position where guess and
  secret agree; pass 2 then goes through the positions from left to right: an agreeing
  position is correct, any other is present when its letter is still in the multiset
  (and one copy is taken out), absent when not.
\<close>

definition exact_letters :: "letter list \<Rightarrow> letter list \<Rightarrow> letter multiset" where
  "exact_letters guess secret = mset (map fst (filter (\<lambda>(g, s). g = s) (zip guess secret)))"

fun displaced :: "letter list \<Rightarrow> letter list \<Rightarrow> letter multiset \<Rightarrow> status list" where
  "displaced (g # gs) (s # ss) left =
     (if g = s then Correct # displaced gs ss left
      else if count left g > 0 then Present # displaced gs ss (left - {#g#})
      else Absent # displaced gs ss left)"
| "displaced _ _ left = []"

definition reference_evaluate :: "letter list \<Rightarrow> letter list \<Rightarrow> status list" where
  "reference_evaluate guess secret =
     displaced guess secret (mset secret - exact_letters guess secret)"

subsection \<open>The game-state invariant\<close>

text \<open>
  The specification's three invariants are the first, fourth and fifth conjunct. The
  second and third tie \<open>currentRow\<close> and \<open>evaluations\<close> to \<open>attempts\<close>: the script tests
  \<open>currentRow\<close> where the specification speaks of the number of attempts.
\<close>

definition game_inv :: "game \<Rightarrow> bool" where
  "game_inv s \<longleftrightarrow>
     length (attempts s) \<le> MAX_ATTEMPTS \<and>
     currentRow s = length (attempts s) \<and>
     evaluations s = map (evaluateGuess (secretLetters s)) (attempts s) \<and>
     (gameOver s \<longleftrightarrow>
        (evaluations s \<noteq> [] \<and> isWin (last (evaluations s))) \<or>
        length (attempts s) = MAX_ATTEMPTS) \<and>
     (won s \<longleftrightarrow> gameOver s \<and> evaluations s \<noteq> [] \<and> isWin (last (evaluations s)))"

subsection \<open>Notions used in the proofs\<close>

text \<open>
  A frequency object stands for a multiset when every letter's entry is the letter's count
  (a letter with no entry has count 0).
\<close>

definition represents :: "freq \<Rightarrow> letter multiset \<Rightarrow> bool" where
  "represents f M \<longleftrightarrow>
     (\<forall>l. f (Some l) = None \<and> count M l = 0 \<or> f (Some l) = Some (Num (int (count M l))))"

text \<open>The secret's letters at the positions where the guess has another letter.\<close>

definition unmatched :: "letter list \<Rightarrow> letter list \<Rightarrow> letter multiset" where
  "unmatched g s = mset (map snd (filter (\<lambda>(a, b). a \<noteq> b) (zip g s)))"

text \<open>
  What both loops keep when the guess may be short: the result has \<open>WORD_LENGTH\<close> entries,
  the property \<^verbatim>\<open>"undefined"\<close> has never been written, and the positions past the
  guess's last letter are absent.
\<close>

definition tail_absent :: "letter list \<Rightarrow> status list \<times> freq \<Rightarrow> bool" where
  "tail_absent g rf \<longleftrightarrow>
     length (fst rf) = WORD_LENGTH \<and> snd rf None = None \<and>
     (\<forall>i<WORD_LENGTH. length g \<le> i \<longrightarrow> fst rf ! i = Absent)"

subsection \<open>Concrete days, games and records\<close>

text \<open>
  The inputs at which the theorems below are instantiated: a day, a game on that day (its
  secret is the catalog's entry for the day) with four letters typed, variants of it, and
  persisted records.
\<close>

definition today0 :: dayKey where
  "today0 = DayKey 2026 11 2"

definition typing0 :: game where
  "typing0 = (initial (Slot None))
     \<lparr>secretWord := [1586, 1575, 1729, 1583], secretLetters := [1586, 1575, 1729, 1583],
      currentGuess := [[1586], [1575], [1729], [1583]]\<rparr>"

definition short0 :: game where
  "short0 = typing0\<lparr>currentGuess := [[1586]]\<rparr>"

definition unknown0 :: game where
  "unknown0 = typing0\<lparr>currentGuess := [[1586], [1586], [1586], [1586]]\<rparr>"

definition over0 :: game where
  "over0 = typing0\<lparr>attempts := [[1586, 1575, 1729, 1583]],
     evaluations := [[Correct, Correct, Correct, Correct]], currentRow := 1,
     gameOver := True, won := True\<rparr>"

definition yesterday0 :: saved where
  "yesterday0 = \<lparr> date = Some (DayKey 2026 11 1), saved_attempts = Some [[1591, 1575, 1729, 1585]],
     saved_gameOver = Some False, saved_won = Some False \<rparr>"

definition record0 :: saved where
  "record0 = \<lparr> date = Some today0, saved_attempts = Some [[1591, 1575, 1729, 1585]],
     saved_gameOver = Some False, saved_won = Some False \<rparr>"

definition unfinished0 :: saved where
  "unfinished0 = \<lparr> date = Some today0, saved_attempts = Some [[1586, 1575, 1729, 1583]],
     saved_gameOver = Some False, saved_won = Some False \<rparr>"

definition restored0 :: game where
  "restored0 = restoreState unfinished0
     ((initial (Slot (Some (Json (JObject unfinished0)))))
        \<lparr>secretWord := [1586, 1575, 1729, 1583], secretLetters := [1586, 1575, 1729, 1583]\<rparr>)"

text \<open>The game as start-up leaves it on that day with nothing stored.\<close>

definition fresh0 :: game where
  "fresh0 = (initial (Slot None))
     \<lparr>secretWord := [1586, 1575, 1729, 1583], secretLetters := [1586, 1575, 1729, 1583]\<rparr>"

text \<open>
  One round at the on-screen keyboard: the letters, then enter, then the result timer fires.
\<close>

definition play :: "jstring list \<Rightarrow> game \<Rightarrow> game" where
  "play keys s =
     fireTimer today0 (handleKey WORDS (ascii ''enter'') (fold (handleKey WORDS) keys s))"

text \<open>
  Four rounds with wrong catalog words, a fifth wrong word typed, enter pressed twice before
  the first result timer fires, and then both timers firing.
\<close>

definition four0 :: game where
  "four0 = fold play
     [[[1591], [1575], [1729], [1585]], [[1605], [1606], [1583], [1585]],
      [[1576], [1575], [1583], [1604]], [[1605], [1575], [1580], [1583]]] fresh0"

definition fifth0 :: game where
  "fifth0 = fold (handleKey WORDS) [[1580], [1575], [1729], [1604]] four0"

definition twice0 :: game where
  "twice0 = handleKey WORDS (ascii ''enter'') (handleKey WORDS (ascii ''enter'') fifth0)"

definition doubled0 :: game where
  "doubled0 = fireTimer today0 (fireTimer today0 twice0)"

section \<open>Tile evaluation\<close>

subsection \<open>The frequency object as a multiset\<close>

lemma represents_empty: "represents Map.empty {#}"
  by (simp add: represents_def)

lemma represents_count_letter:
  assumes "represents f M"
  shows "represents (count_letter l f) (add_mset l M)"
  unfolding represents_def
proof
  fix k
  from assms have "f (Some k) = None \<and> count M k = 0 \<or> f (Some k) = Some (Num (int (count M k)))"
    by (simp add: represents_def)
  then show "count_letter l f (Some k) = None \<and> count (add_mset l M) k = 0 \<or>
        count_letter l f (Some k) = Some (Num (int (count (add_mset l M) k)))"
    by (auto simp: count_letter_def)
qed

lemma represents_build:
  "represents f M \<Longrightarrow> represents (fold count_letter s f) (M + mset s)"
proof (induction s arbitrary: f M)
  case Nil
  then show ?case by simp
next
  case (Cons a s)
  from Cons.IH [OF represents_count_letter [OF Cons.prems, of a]]
  show ?case by simp
qed

lemma represents_remaining:
  assumes "represents f M"
  shows "remaining f (Some l) \<longleftrightarrow> count M l > 0"
proof -
  from assms have "f (Some l) = None \<and> count M l = 0 \<or> f (Some l) = Some (Num (int (count M l)))"
    by (simp add: represents_def)
  then show ?thesis by (auto simp: remaining_def count_eq_zero_iff)
qed

lemma represents_decrement:
  assumes "represents f M" and "count M l > 0"
  shows "represents (decrement (Some l) f) (M - {#l#})"
  unfolding represents_def
proof
  fix k
  from assms(1) have k: "f (Some k) = None \<and> count M k = 0 \<or> f (Some k) = Some (Num (int (count M k)))"
    by (simp add: represents_def)
  from assms(1) have l: "f (Some l) = None \<and> count M l = 0 \<or> f (Some l) = Some (Num (int (count M l)))"
    by (simp add: represents_def)
  with assms(2) have l': "f (Some l) = Some (Num (int (count M l)))" by (auto simp: count_eq_zero_iff)
  show "decrement (Some l) f (Some k) = None \<and> count (M - {#l#}) k = 0 \<or>
        decrement (Some l) f (Some k) = Some (Num (int (count (M - {#l#}) k)))"
  proof (cases "k = l")
    case True
    with l' assms(2) show ?thesis by (simp add: decrement_def of_nat_diff Suc_le_eq)
  next
    case False
    with k show ?thesis by (simp add: decrement_def)
  qed
qed

lemma exact_letters_subset:
  "length g = length s \<Longrightarrow> exact_letters g s \<subseteq># mset s"
  unfolding exact_letters_def
  by (induction g s rule: list_induct2) (auto intro: subset_mset.order_trans)

lemma unmatched_eq:
  "length g = length s \<Longrightarrow> mset s - exact_letters g s = unmatched g s"
proof (induction g s rule: list_induct2)
  case Nil
  then show ?case by (simp add: exact_letters_def unmatched_def)
next
  case (Cons a g b s)
  have sub: "exact_letters g s \<subseteq># mset s" by (rule exact_letters_subset [OF Cons.hyps])
  show ?case
  proof (cases "a = b")
    case True
    with Cons.IH show ?thesis by (simp add: exact_letters_def unmatched_def)
  next
    case False
    have "add_mset b (mset s) - exact_letters g s = add_mset b (mset s - exact_letters g s)"
      using sub by (simp add: multiset_eq_iff subseteq_mset_def Suc_diff_le)
    with False Cons.IH show ?thesis by (simp add: exact_letters_def unmatched_def)
  qed
qed

subsection \<open>The two passes\<close>

lemma unmatched_snoc:
  "length g = length s \<Longrightarrow>
   unmatched (g @ [a]) (s @ [b]) = (if a = b then unmatched g s else add_mset b (unmatched g s))"
  by (simp add: unmatched_def)

lemma first_pass_fold:
  assumes g: "length g = n" and s: "length s = n" and f: "represents f (mset s)"
  shows "k \<le> n \<Longrightarrow>
    \<exists>f'. fold (first_pass g s) [0..<k] (replicate n Absent, f) =
            (map (\<lambda>i. if i < k \<and> g ! i = s ! i then Correct else Absent) [0..<n], f') \<and>
          represents f' (unmatched (take k g) (take k s) + mset (drop k s))"
proof (induction k)
  case 0
  have "map (\<lambda>i. Absent) [0..<n] = replicate n Absent"
    by (simp add: map_replicate_const)
  with f show ?case by (simp add: unmatched_def)
next
  case (Suc k)
  then have k: "k < n" by simp
  with Suc.IH obtain f' where
    run: "fold (first_pass g s) [0..<k] (replicate n Absent, f) =
            (map (\<lambda>i. if i < k \<and> g ! i = s ! i then Correct else Absent) [0..<n], f')"
    and rep: "represents f' (unmatched (take k g) (take k s) + mset (drop k s))"
    by auto
  let ?m = "\<lambda>k. map (\<lambda>i. if i < k \<and> g ! i = s ! i then Correct else Absent) [0..<n]"
  have dropk: "drop k s = s ! k # drop (Suc k) s"
    using k s by (simp add: Cons_nth_drop_Suc)
  have tg: "take (Suc k) g = take k g @ [g ! k]" and ts: "take (Suc k) s = take k s @ [s ! k]"
    using k g s by (simp_all add: take_Suc_conv_app_nth)
  have lens: "length (take k g) = length (take k s)"
    using g s by simp
  have un: "unmatched (take (Suc k) g) (take (Suc k) s) =
      (if g ! k = s ! k then unmatched (take k g) (take k s)
       else add_mset (s ! k) (unmatched (take k g) (take k s)))"
    unfolding tg ts by (rule unmatched_snoc [OF lens])
  have ats: "at g k = Some (g ! k)" "at s k = Some (s ! k)"
    using k g s by (simp_all add: at_def)
  show ?case
  proof (cases "g ! k = s ! k")
    case True
    have marks: "(?m k)[k := Correct] = ?m (Suc k)"
      using True k by (intro nth_equalityI) (auto simp: nth_list_update less_Suc_eq)
    have pos: "count (unmatched (take k g) (take k s) + mset (drop k s)) (g ! k) > 0"
      using True dropk by simp
    have "represents (decrement (Some (g ! k)) f')
            (unmatched (take k g) (take k s) + mset (drop k s) - {#g ! k#})"
      by (rule represents_decrement [OF rep pos])
    moreover have "unmatched (take k g) (take k s) + mset (drop k s) - {#g ! k#} =
        unmatched (take (Suc k) g) (take (Suc k) s) + mset (drop (Suc k) s)"
      using True un dropk by simp
    ultimately have rep': "represents (decrement (Some (g ! k)) f')
        (unmatched (take (Suc k) g) (take (Suc k) s) + mset (drop (Suc k) s))"
      by simp
    have "fold (first_pass g s) [0..<Suc k] (replicate n Absent, f) =
        (?m (Suc k), decrement (Some (g ! k)) f')"
      using run True ats marks by (simp add: first_pass_def)
    with rep' show ?thesis by blast
  next
    case False
    have marks: "?m k = ?m (Suc k)"
      using False by (auto simp: less_Suc_eq)
    have "unmatched (take k g) (take k s) + mset (drop k s) =
        unmatched (take (Suc k) g) (take (Suc k) s) + mset (drop (Suc k) s)"
      using False un dropk by simp
    with rep have rep': "represents f'
        (unmatched (take (Suc k) g) (take (Suc k) s) + mset (drop (Suc k) s))"
      by simp
    have "fold (first_pass g s) [0..<Suc k] (replicate n Absent, f) = (?m (Suc k), f')"
      using run False ats marks by (simp add: first_pass_def)
    with rep' show ?thesis by blast
  qed
qed

lemma second_pass_fold:
  assumes g: "length g = n" and s: "length s = n"
  shows "k \<le> n \<Longrightarrow> length pre = k \<Longrightarrow> represents f M \<Longrightarrow>
    fst (fold (second_pass g) [k..<n]
          (pre @ drop k (map (\<lambda>i. if g ! i = s ! i then Correct else Absent) [0..<n]), f)) =
    pre @ displaced (drop k g) (drop k s) M"
proof (induction "n - k" arbitrary: k pre f M)
  case 0
  then have "k = n" by simp
  with g s show ?case by simp
next
  case (Suc d)
  let ?r1 = "map (\<lambda>i. if g ! i = s ! i then Correct else Absent) [0..<n]"
  from Suc.hyps(2) have k: "k < n" by simp
  have upt: "[k..<n] = k # [Suc k..<n]"
    using k by (simp add: upt_conv_Cons)
  have dg: "drop k g = g ! k # drop (Suc k) g" and ds: "drop k s = s ! k # drop (Suc k) s"
    using k g s by (simp_all add: Cons_nth_drop_Suc)
  have dr: "drop k ?r1 = (if g ! k = s ! k then Correct else Absent) # drop (Suc k) ?r1"
    using k by (simp add: Cons_nth_drop_Suc [symmetric])
  have atg: "at g k = Some (g ! k)"
    using k g by (simp add: at_def)
  have nthk: "(pre @ drop k ?r1) ! k = (if g ! k = s ! k then Correct else Absent)"
    using Suc.prems(2) dr by (simp add: nth_append)
  have upd: "\<And>v. (pre @ drop k ?r1)[k := v] = (pre @ [v]) @ drop (Suc k) ?r1"
    using Suc.prems(2) dr by (simp add: list_update_append)
  have same: "pre @ drop k ?r1 = (pre @ [if g ! k = s ! k then Correct else Absent]) @ drop (Suc k) ?r1"
    using dr by simp
  have d: "d = n - Suc k" and k': "Suc k \<le> n" using Suc.hyps(2) by simp_all
  note IH = Suc.hyps(1) [OF d k']
  show ?case
  proof (cases "g ! k = s ! k")
    case True
    have step: "second_pass g k (pre @ drop k ?r1, f) = ((pre @ [Correct]) @ drop (Suc k) ?r1, f)"
      using True nthk same by (simp add: second_pass_def)
    have "fst (fold (second_pass g) [Suc k..<n] ((pre @ [Correct]) @ drop (Suc k) ?r1, f)) =
        (pre @ [Correct]) @ displaced (drop (Suc k) g) (drop (Suc k) s) M"
      by (rule IH) (use Suc.prems in simp_all)
    with True step show ?thesis unfolding upt dg ds by simp
  next
    case False
    show ?thesis
    proof (cases "count M (g ! k) > 0")
      case True
      then have rem: "remaining f (Some (g ! k))"
        using represents_remaining [OF Suc.prems(3)] by simp
      have step: "second_pass g k (pre @ drop k ?r1, f) =
          ((pre @ [Present]) @ drop (Suc k) ?r1, decrement (Some (g ! k)) f)"
        using False nthk rem atg upd by (simp add: second_pass_def)
      have "fst (fold (second_pass g) [Suc k..<n]
              ((pre @ [Present]) @ drop (Suc k) ?r1, decrement (Some (g ! k)) f)) =
          (pre @ [Present]) @ displaced (drop (Suc k) g) (drop (Suc k) s) (M - {#g ! k#})"
        by (rule IH) (use Suc.prems True represents_decrement in simp_all)
      with False True step show ?thesis unfolding upt dg ds by simp
    next
      case nopos: False
      then have rem: "\<not> remaining f (Some (g ! k))"
        using represents_remaining [OF Suc.prems(3)] by simp
      have step: "second_pass g k (pre @ drop k ?r1, f) = ((pre @ [Absent]) @ drop (Suc k) ?r1, f)"
        using False nthk rem atg same by (simp add: second_pass_def)
      have "fst (fold (second_pass g) [Suc k..<n] ((pre @ [Absent]) @ drop (Suc k) ?r1, f)) =
          (pre @ [Absent]) @ displaced (drop (Suc k) g) (drop (Suc k) s) M"
        by (rule IH) (use Suc.prems in simp_all)
      with False nopos step show ?thesis unfolding upt dg ds by simp
    qed
  qed
qed

lemma evaluateGuess_reference:
  assumes g: "length guess = WORD_LENGTH" and s: "length secret = WORD_LENGTH"
  shows "evaluateGuess secret guess = reference_evaluate guess secret"
proof -
  have "represents (fold count_letter secret Map.empty) ({#} + mset secret)"
    by (rule represents_build [OF represents_empty])
  then have f: "represents (fold count_letter secret Map.empty) (mset secret)" by simp
  from first_pass_fold [OF g s f, of WORD_LENGTH] obtain f' where
    run: "fold (first_pass guess secret) [0..<WORD_LENGTH]
            (replicate WORD_LENGTH Absent, fold count_letter secret Map.empty) =
          (map (\<lambda>i. if i < WORD_LENGTH \<and> guess ! i = secret ! i then Correct else Absent)
             [0..<WORD_LENGTH], f')"
    and rep: "represents f' (unmatched (take WORD_LENGTH guess) (take WORD_LENGTH secret)
                + mset (drop WORD_LENGTH secret))"
    by auto
  have marks: "map (\<lambda>i. if i < WORD_LENGTH \<and> guess ! i = secret ! i then Correct else Absent)
          [0..<WORD_LENGTH] =
        map (\<lambda>i. if guess ! i = secret ! i then Correct else Absent) [0..<WORD_LENGTH]"
    by simp
  from rep g s have rep': "represents f' (mset secret - exact_letters guess secret)"
    by (simp add: unmatched_eq)
  have "fst (fold (second_pass guess) [0..<WORD_LENGTH]
          ([] @ drop 0 (map (\<lambda>i. if guess ! i = secret ! i then Correct else Absent)
             [0..<WORD_LENGTH]), f')) =
        [] @ displaced (drop 0 guess) (drop 0 secret) (mset secret - exact_letters guess secret)"
    by (rule second_pass_fold [OF g s _ _ rep']) simp_all
  then show ?thesis
    unfolding evaluateGuess_def reference_evaluate_def splitUrdu_def Let_def run marks
    by simp
qed

subsection \<open>A guess against itself, short guesses, replay\<close>

lemma displaced_self: "displaced w w M = replicate (length w) Correct"
  by (induction w) simp_all

lemma evaluateGuess_self:
  "length w = WORD_LENGTH \<Longrightarrow> evaluateGuess w w = replicate WORD_LENGTH Correct"
  by (simp add: evaluateGuess_reference reference_evaluate_def displaced_self)

lemma tail_absent_first_pass:
  assumes "length s = WORD_LENGTH" and "j < WORD_LENGTH" and "tail_absent g rf"
  shows "tail_absent g (first_pass g s j rf)"
proof (cases "at g j = at s j")
  case True
  with assms(1,2) obtain x where x: "at g j = Some x" and j: "j < length g"
    by (auto simp: at_def split: if_splits)
  obtain r f where rf: "rf = (r, f)" by (cases rf)
  with True x have "first_pass g s j rf = (r[j := Correct], decrement (Some x) f)"
    by (simp add: first_pass_def)
  with assms(3) j rf show ?thesis
    by (auto simp: tail_absent_def decrement_def)
next
  case False
  with assms(3) show ?thesis
    by (cases rf) (simp add: first_pass_def)
qed

lemma tail_absent_second_pass:
  assumes "j < WORD_LENGTH" and "tail_absent g rf"
  shows "tail_absent g (second_pass g j rf)"
proof -
  obtain r f where rf: "rf = (r, f)" by (cases rf)
  show ?thesis
  proof (cases "r ! j \<noteq> Correct \<and> remaining f (at g j)")
    case True
    from assms(2) rf have "f None = None" by (simp add: tail_absent_def)
    with True obtain x where x: "at g j = Some x"
      by (cases "at g j") (auto simp: remaining_def)
    then have j: "j < length g" by (simp add: at_def split: if_splits)
    from True x rf have "second_pass g j rf = (r[j := Present], decrement (Some x) f)"
      by (simp add: second_pass_def)
    with assms(2) j rf show ?thesis
      by (auto simp: tail_absent_def decrement_def)
  next
    case False
    with rf have "second_pass g j rf = rf"
      by (auto simp: second_pass_def)
    with assms(2) show ?thesis by simp
  qed
qed

lemma length_first_pass: "length (fst (first_pass g s j rf)) = length (fst rf)"
  by (cases rf) (simp add: first_pass_def)

lemma length_second_pass: "length (fst (second_pass g j rf)) = length (fst rf)"
  by (cases rf) (simp add: second_pass_def)

lemma length_evaluateGuess: "length (evaluateGuess secret guess) = WORD_LENGTH"
proof -
  have "\<And>js rf. length (fst (fold (first_pass guess secret) js rf)) = length (fst rf)"
    subgoal for js rf by (induction js arbitrary: rf) (simp_all add: length_first_pass)
    done
  moreover have "\<And>js rf. length (fst (fold (second_pass guess) js rf)) = length (fst rf)"
    subgoal for js rf by (induction js arbitrary: rf) (simp_all add: length_second_pass)
    done
  ultimately show ?thesis
    by (simp add: evaluateGuess_def splitUrdu_def Let_def)
qed

lemma evaluateGuess_tail_absent:
  assumes s: "length secret = WORD_LENGTH"
  shows "tail_absent guess
     (fold (second_pass guess) [0..<WORD_LENGTH]
        (fold (first_pass guess secret) [0..<WORD_LENGTH]
           (replicate WORD_LENGTH Absent, fold count_letter secret Map.empty)))"
proof -
  have none: "\<And>f. f None = None \<Longrightarrow> fold count_letter secret f None = None"
    subgoal for f by (induction secret arbitrary: f) (simp_all add: count_letter_def)
    done
  have start: "tail_absent guess (replicate WORD_LENGTH Absent, fold count_letter secret Map.empty)"
    by (simp add: tail_absent_def none)
  have one: "tail_absent guess (fold (first_pass guess secret) [0..<WORD_LENGTH]
      (replicate WORD_LENGTH Absent, fold count_letter secret Map.empty))"
    by (rule fold_invariant [where Q = "\<lambda>j. j < WORD_LENGTH"])
      (simp_all add: start tail_absent_first_pass [OF s])
  show ?thesis
    by (rule fold_invariant [where Q = "\<lambda>j. j < WORD_LENGTH"])
      (simp_all add: one tail_absent_second_pass)
qed

lemma evaluateGuess_short:
  assumes "length secret = WORD_LENGTH" and "i < WORD_LENGTH" and "length guess \<le> i"
  shows "evaluateGuess secret guess ! i = Absent"
  using evaluateGuess_tail_absent [OF assms(1), of guess] assms(2,3)
  by (simp add: tail_absent_def evaluateGuess_def splitUrdu_def Let_def)

lemma restore_fold:
  "fold (\<lambda>i s. s\<lparr>evaluations := evaluations s @ [evaluateGuess (secretLetters s) (attempts s ! i)]\<rparr>)
      [0..<n] s =
   s\<lparr>evaluations := evaluations s @ map (\<lambda>i. evaluateGuess (secretLetters s) (attempts s ! i)) [0..<n]\<rparr>"
  by (induction n) simp_all

lemma map_nth_upt: "map (\<lambda>i. h (xs ! i)) [0..<length xs] = map h xs"
  by (rule nth_equalityI) simp_all

lemma restoreState_fields:
  "attempts (restoreState sv s) = (case saved_attempts sv of None \<Rightarrow> [] | Some a \<Rightarrow> a)"
  "gameOver (restoreState sv s) = (case saved_gameOver sv of None \<Rightarrow> False | Some b \<Rightarrow> b)"
  "won (restoreState sv s) = (case saved_won sv of None \<Rightarrow> False | Some b \<Rightarrow> b)"
  "currentRow (restoreState sv s) = length (attempts (restoreState sv s))"
  "evaluations (restoreState sv s) =
     evaluations s @ map (evaluateGuess (secretLetters s)) (attempts (restoreState sv s))"
  "secretLetters (restoreState sv s) = secretLetters s"
  "secretWord (restoreState sv s) = secretWord s"
  by (simp_all add: restoreState_def Let_def restore_fold map_nth_upt)

subsection \<open>What the evaluation returns\<close>

lemma length_displaced:
  "length g = length s \<Longrightarrow> length (displaced g s M) = length g"
  by (induction g s arbitrary: M rule: list_induct2) simp_all

lemma displaced_correct_iff:
  "length g = length s \<Longrightarrow> i < length g \<Longrightarrow> displaced g s M ! i = Correct \<longleftrightarrow> g ! i = s ! i"
proof (induction g s arbitrary: M i rule: list_induct2)
  case Nil
  then show ?case by simp
next
  case (Cons a g b s)
  then show ?case by (cases i) simp_all
qed

text \<open>
  C1. For a guess and a secret of \<open>WORD_LENGTH\<close> letters each, \<open>evaluateGuess\<close> returns what
  the specification's two-pass algorithm returns: \<open>WORD_LENGTH\<close> statuses, a position
  correct exactly when guess and secret agree there, the other positions decided from left
  to right against the multiset of the secret's letters that is left once every exact match
  has been taken out.
\<close>

theorem evaluateGuess_two_pass:
  assumes "length guess = WORD_LENGTH" and "length secret = WORD_LENGTH"
  shows "evaluateGuess secret guess = reference_evaluate guess secret \<and>
         length (evaluateGuess secret guess) = WORD_LENGTH \<and>
         (\<forall>i<WORD_LENGTH. evaluateGuess secret guess ! i = Correct \<longleftrightarrow> guess ! i = secret ! i)"
proof -
  have eq: "evaluateGuess secret guess = reference_evaluate guess secret"
    by (rule evaluateGuess_reference [OF assms])
  moreover have "\<forall>i<WORD_LENGTH. reference_evaluate guess secret ! i = Correct \<longleftrightarrow> guess ! i = secret ! i"
    using assms by (simp add: reference_evaluate_def displaced_correct_iff)
  moreover have "length (evaluateGuess secret guess) = WORD_LENGTH"
    by (rule length_evaluateGuess)
  ultimately show ?thesis
    by simp
qed

theorem evaluateGuess_two_pass_witness:
  "length [1580, 1575, 1729, 1604 :: nat] = WORD_LENGTH \<and>
   length [1605, 1575, 1580, 1583 :: nat] = WORD_LENGTH \<and>
   evaluateGuess [1605, 1575, 1580, 1583] [1580, 1575, 1729, 1604] =
     reference_evaluate [1580, 1575, 1729, 1604] [1605, 1575, 1580, 1583] \<and>
   reference_evaluate [1580, 1575, 1729, 1604] [1605, 1575, 1580, 1583] =
     [Present, Correct, Absent, Absent]"
proof -
  have l: "length [1580, 1575, 1729, 1604 :: nat] = WORD_LENGTH"
    "length [1605, 1575, 1580, 1583 :: nat] = WORD_LENGTH"
    by (simp_all add: WORD_LENGTH_def)
  have "reference_evaluate [1580, 1575, 1729, 1604] [1605, 1575, 1580, 1583] =
     [Present, Correct, Absent, Absent]"
    by (simp add: reference_evaluate_def exact_letters_def)
  with l evaluateGuess_two_pass [OF l] show ?thesis by simp
qed

text \<open>
  C8. A word of \<open>WORD_LENGTH\<close> letters evaluated against itself as the secret is correct at
  every position.
\<close>

theorem evaluateGuess_self_all_correct:
  assumes "length w = WORD_LENGTH"
  shows "evaluateGuess w w = replicate WORD_LENGTH Correct \<and> isWin (evaluateGuess w w)"
  using assms by (simp add: evaluateGuess_self isWin_def list_all_iff)

theorem evaluateGuess_self_all_correct_witness:
  "length [1586, 1575, 1729, 1583 :: nat] = WORD_LENGTH \<and>
   evaluateGuess [1586, 1575, 1729, 1583] [1586, 1575, 1729, 1583] =
     [Correct, Correct, Correct, Correct]"
proof -
  have l: "length [1586, 1575, 1729, 1583 :: nat] = WORD_LENGTH"
    by (simp add: WORD_LENGTH_def)
  from evaluateGuess_self_all_correct [OF l] l show ?thesis
    by (simp add: WORD_LENGTH_def numeral_eq_Suc)
qed

text \<open>
  C9. \<open>evaluateGuess\<close> returns for a guess of any length: with a secret of \<open>WORD_LENGTH\<close>
  letters (every catalog word is one) the result has exactly \<open>WORD_LENGTH\<close> statuses and
  is absent at each position past the guess's last letter. \<open>restoreState\<close> takes the
  persisted guesses as they are and evaluates each of them, whatever its length.
\<close>

theorem evaluateGuess_any_guess:
  assumes "length secret = WORD_LENGTH"
  shows "length (evaluateGuess secret guess) = WORD_LENGTH \<and>
         (\<forall>i<WORD_LENGTH. length guess \<le> i \<longrightarrow> evaluateGuess secret guess ! i = Absent) \<and>
         (\<forall>e \<in> set (evaluateGuess secret guess). e = Correct \<or> e = Present \<or> e = Absent) \<and>
         evaluations (restoreState sv s) =
           evaluations s @ map (evaluateGuess (secretLetters s))
             (case saved_attempts sv of None \<Rightarrow> [] | Some a \<Rightarrow> a)"
proof -
  have "\<And>e. e = Correct \<or> e = Present \<or> e = Absent"
    subgoal for e by (cases e) simp_all
    done
  then show ?thesis
    using assms by (simp add: length_evaluateGuess evaluateGuess_short restoreState_fields)
qed

theorem evaluateGuess_any_guess_witness:
  "length [1605, 1606, 1583, 1585 :: nat] = WORD_LENGTH \<and>
   evaluateGuess [1605, 1606, 1583, 1585] [1583] = [Present, Absent, Absent, Absent] \<and>
   evaluateGuess [1605, 1606, 1583, 1585] [1583] ! 1 = Absent"
proof -
  have l: "length [1605, 1606, 1583, 1585 :: nat] = WORD_LENGTH"
    by (simp add: WORD_LENGTH_def)
  have v: "evaluateGuess [1605, 1606, 1583, 1585] [1583] = [Present, Absent, Absent, Absent]"
    by code_simp
  from evaluateGuess_any_guess [OF l, of "[1583]"] have "evaluateGuess [1605, 1606, 1583, 1585] [1583] ! 1 = Absent"
    by (simp add: WORD_LENGTH_def)
  with l v show ?thesis by simp
qed

section \<open>Submission\<close>

lemma recordResult_fields:
  "attempts (recordResult today g e s) = attempts s @ [g]"
  "evaluations (recordResult today g e s) = evaluations s @ [e]"
  "currentRow (recordResult today g e s) = currentRow s + 1"
  "secretLetters (recordResult today g e s) = secretLetters s"
  "gameOver (recordResult today g e s) \<longleftrightarrow>
     isWin e \<or> currentRow s + 1 \<ge> MAX_ATTEMPTS \<or> gameOver s"
  "won (recordResult today g e s) \<longleftrightarrow>
     isWin e \<or> (currentRow s + 1 < MAX_ATTEMPTS \<and> won s)"
  by (auto simp: recordResult_def Let_def markPlayed_def saveDailyState_def setItem_def
      showToast_def split: storage.splits sum.splits)

lemma recordResult_timers: "timers (recordResult today g e s) = timers s"
  by (auto simp: recordResult_def Let_def markPlayed_def saveDailyState_def setItem_def
      showToast_def split: storage.splits sum.splits)

lemma recordResult_inv:
  assumes inv: "game_inv s" and live: "\<not> gameOver s"
    and e: "e = evaluateGuess (secretLetters s) g"
  shows "game_inv (recordResult today g e s)"
proof -
  from inv live have len: "length (attempts s) < MAX_ATTEMPTS" and row: "currentRow s = length (attempts s)"
    and nw: "\<not> won s" and ev: "evaluations s = map (evaluateGuess (secretLetters s)) (attempts s)"
    by (auto simp: game_inv_def)
  show ?thesis
    unfolding game_inv_def recordResult_fields
    using len row nw ev e live by auto
qed

lemma evals0:
  "evaluateGuess [1586, 1575, 1729, 1583] [1591, 1575, 1729, 1585] = [Absent, Correct, Correct, Absent]"
  "evaluateGuess [1586, 1575, 1729, 1583] [1605, 1606, 1583, 1585] = [Absent, Absent, Present, Absent]"
  "evaluateGuess [1586, 1575, 1729, 1583] [1576, 1575, 1583, 1604] = [Absent, Correct, Present, Absent]"
  "evaluateGuess [1586, 1575, 1729, 1583] [1605, 1575, 1580, 1583] = [Absent, Correct, Absent, Correct]"
  "evaluateGuess [1586, 1575, 1729, 1583] [1580, 1575, 1729, 1604] = [Absent, Correct, Correct, Absent]"
  by code_simp+

lemma keys0: "[c] \<noteq> ascii ''enter''" "[c] \<noteq> ascii ''backspace''"
  by (simp_all add: ascii_def)

lemma typing_keys:
  assumes "\<not> gameOver s" and "currentGuess s = []"
  shows "fold (handleKey WORDS) [[a], [b], [c], [d]] s = s\<lparr>currentGuess := [[a], [b], [c], [d]]\<rparr>"
  using assms by (simp add: handleKey_def keys0 WORD_LENGTH_def)

lemma enter_key:
  assumes "\<not> gameOver s" and "currentGuess s = [[a], [b], [c], [d]]" and "[a, b, c, d] \<in> set WORDS"
  shows "handleKey WORDS (ascii ''enter'') s =
    s\<lparr>timers := timers s @ [([a, b, c, d], evaluateGuess (secretLetters s) [a, b, c, d])]\<rparr>"
  using assms by (simp add: handleKey_def ascii_def submitGuess_def WORD_LENGTH_def Let_def)

lemma in_WORDS:
  "[1591, 1575, 1729, 1585] \<in> set WORDS" "[1605, 1606, 1583, 1585] \<in> set WORDS"
  "[1576, 1575, 1583, 1604] \<in> set WORDS" "[1605, 1575, 1580, 1583] \<in> set WORDS"
  "[1580, 1575, 1729, 1604] \<in> set WORDS"
  by (simp_all add: WORDS_def)

lemma play_continues:
  assumes "\<not> gameOver s" and "currentGuess s = []" and "timers s = []"
    and "[a, b, c, d] \<in> set WORDS"
    and "\<not> isWin (evaluateGuess (secretLetters s) [a, b, c, d])"
    and "currentRow s + 1 < MAX_ATTEMPTS" and "localStorage s = Slot x"
  shows "play [[a], [b], [c], [d]] s =
    s\<lparr>currentRow := currentRow s + 1, attempts := attempts s @ [[a, b, c, d]],
      evaluations := evaluations s @ [evaluateGuess (secretLetters s) [a, b, c, d]],
      localStorage := Slot (Some (Json (JObject \<lparr> date = Some today0,
        saved_attempts = Some (attempts s @ [[a, b, c, d]]),
        saved_gameOver = Some False, saved_won = Some False \<rparr>)))\<rparr>"
proof -
  let ?t = "s\<lparr>currentGuess := [[a], [b], [c], [d]]\<rparr>"
  have "fold (handleKey WORDS) [[a], [b], [c], [d]] s = ?t"
    by (rule typing_keys [OF assms(1,2)])
  moreover have "handleKey WORDS (ascii ''enter'') ?t =
      ?t\<lparr>timers := timers ?t @ [([a, b, c, d], evaluateGuess (secretLetters ?t) [a, b, c, d])]\<rparr>"
    by (rule enter_key) (use assms in simp_all)
  ultimately show ?thesis
    using assms
    by (simp add: play_def fireTimer_def recordResult_def Let_def saveDailyState_def
        setItem_def JSON_stringify_def)
qed

lemma four0_eq:
  "four0 = fresh0\<lparr>attempts := [[1591, 1575, 1729, 1585], [1605, 1606, 1583, 1585],
       [1576, 1575, 1583, 1604], [1605, 1575, 1580, 1583]],
     evaluations := [[Absent, Correct, Correct, Absent], [Absent, Absent, Present, Absent],
       [Absent, Correct, Present, Absent], [Absent, Correct, Absent, Correct]],
     currentRow := 4,
     localStorage := Slot (Some (Json (JObject \<lparr> date = Some today0,
       saved_attempts = Some [[1591, 1575, 1729, 1585], [1605, 1606, 1583, 1585],
         [1576, 1575, 1583, 1604], [1605, 1575, 1580, 1583]],
       saved_gameOver = Some False, saved_won = Some False \<rparr>)))\<rparr>"
  unfolding four0_def fresh0_def initial_def
  by (simp add: play_continues in_WORDS evals0 isWin_def MAX_ATTEMPTS_def)

lemma fifth0_eq:
  "fifth0 = four0\<lparr>currentGuess := [[1580], [1575], [1729], [1604]]\<rparr>"
  unfolding fifth0_def
  by (rule typing_keys) (simp_all add: four0_eq fresh0_def initial_def)

lemma twice0_eq:
  "twice0 = fifth0\<lparr>timers :=
     [([1580, 1575, 1729, 1604], [Absent, Correct, Correct, Absent]),
      ([1580, 1575, 1729, 1604], [Absent, Correct, Correct, Absent])]\<rparr>"
  unfolding twice0_def
  by (simp add: enter_key in_WORDS evals0 fifth0_eq four0_eq fresh0_def initial_def)

text \<open>
  C3. The claim does not hold of the program: a submission is accepted when enter is
  pressed, and its result is recorded only when the timer fires, so enter pressed twice
  on the fifth guess is accepted twice. From a fresh game, after four wrong guesses and a
  fifth wrong catalog word typed, the second enter finds the game not over and the word in
  the catalog; the first result ends the game as lost with \<open>MAX_ATTEMPTS\<close> attempts, the
  second is appended all the same, which leaves six attempts and the invariant broken.
\<close>

theorem double_enter_breaks_invariant:
  "startGame WORDS rejecting today0 (Slot None) = Inr fresh0 \<and>
   game_inv fifth0 \<and> \<not> gameOver fifth0 \<and> length (attempts fifth0) = 4 \<and>
   concat (currentGuess fifth0) \<in> set WORDS \<and>
   \<not> isWin (evaluateGuess (secretLetters fifth0) (concat (currentGuess fifth0))) \<and>
   length (timers twice0) = 2 \<and>
   gameOver (fireTimer today0 twice0) \<and> \<not> won (fireTimer today0 twice0) \<and>
   length (attempts (fireTimer today0 twice0)) = MAX_ATTEMPTS \<and>
   length (attempts doubled0) = 6 \<and> MAX_ATTEMPTS < length (attempts doubled0) \<and>
   gameOver doubled0 \<and> \<not> isWin (last (evaluations doubled0)) \<and>
   \<not> game_inv doubled0"
proof -
  have start: "startGame WORDS rejecting today0 (Slot None) = Inr fresh0"
    by (simp add: startGame_def getDailyWord_def Date_getTime_def iso_date_def
        Math_floor_div_def daysFromCivil_def today0_def js_rem_def index_at_def WORDS_def
        loadDailyState_def getItem_def fresh0_def splitUrdu_def)
  have fifth: "game_inv fifth0" "\<not> gameOver fifth0" "length (attempts fifth0) = 4"
    "concat (currentGuess fifth0) \<in> set WORDS"
    "\<not> isWin (evaluateGuess (secretLetters fifth0) (concat (currentGuess fifth0)))"
    by (simp_all add: fifth0_eq four0_eq fresh0_def initial_def game_inv_def evals0 isWin_def
        MAX_ATTEMPTS_def in_WORDS)
  have twice: "length (timers twice0) = 2"
    by (simp add: twice0_eq)
  have one: "gameOver (fireTimer today0 twice0)" "\<not> won (fireTimer today0 twice0)"
    "length (attempts (fireTimer today0 twice0)) = MAX_ATTEMPTS"
    by (simp_all add: twice0_eq fifth0_eq four0_eq fresh0_def initial_def fireTimer_def
        recordResult_fields isWin_def MAX_ATTEMPTS_def)
  have six: "length (attempts doubled0) = 6"
    by (simp add: doubled0_def twice0_eq fifth0_eq four0_eq fresh0_def initial_def fireTimer_def
        recordResult_def Let_def isWin_def MAX_ATTEMPTS_def markPlayed_def saveDailyState_def
        setItem_def showToast_def)
  then have more: "MAX_ATTEMPTS < length (attempts doubled0)" "\<not> game_inv doubled0"
    by (simp_all add: game_inv_def MAX_ATTEMPTS_def)
  have last: "gameOver doubled0" "\<not> isWin (last (evaluations doubled0))"
    by (simp_all add: doubled0_def twice0_eq fifth0_eq four0_eq fresh0_def initial_def
        fireTimer_def recordResult_fields recordResult_timers isWin_def MAX_ATTEMPTS_def)
  from start fifth twice one six more last show ?thesis by simp
qed

lemma WORDS_length: "w \<in> set WORDS \<Longrightarrow> length w = WORD_LENGTH"
  by (auto simp: WORDS_def WORD_LENGTH_def)

text \<open>
  C6. Each rejection leaves the game as it was, but for the toast: a typed guess that has
  not \<open>WORD_LENGTH\<close> entries, and one that is not in the catalog, change nothing else and
  schedule no result; with the program's catalog that covers every guess whose letters do
  not number \<open>WORD_LENGTH\<close>. Once the game is over every key, on screen or physical, and
  so every further submission, is ignored.
\<close>

theorem rejections_change_nothing:
  "(length (currentGuess s) \<noteq> WORD_LENGTH \<longrightarrow>
      submitGuess catalog s = s\<lparr>toast := Some msg_four_letters\<rparr>) \<and>
   (length (currentGuess s) = WORD_LENGTH \<and> concat (currentGuess s) \<notin> set catalog \<longrightarrow>
      submitGuess catalog s = s\<lparr>toast := Some msg_not_in_list\<rparr>) \<and>
   (length (concat (currentGuess s)) \<noteq> WORD_LENGTH \<longrightarrow>
      submitGuess WORDS s = s\<lparr>toast := Some msg_four_letters\<rparr> \<or>
      submitGuess WORDS s = s\<lparr>toast := Some msg_not_in_list\<rparr>) \<and>
   (gameOver s \<longrightarrow>
      handleKey catalog letter s = s \<and>
      handlePhysicalKey catalog onscreen key s = s \<and>
      fold (handleKey catalog) letters s = s)"
proof -
  have over: "gameOver s \<Longrightarrow> fold (handleKey catalog) letters s = s"
    by (induction letters) (simp_all add: handleKey_def)
  have count: "length (concat (currentGuess s)) \<noteq> WORD_LENGTH \<Longrightarrow>
      concat (currentGuess s) \<notin> set WORDS"
    using WORDS_length by blast
  from over count show ?thesis
    by (simp add: submitGuess_def showToast_def handleKey_def handlePhysicalKey_def Let_def)
qed

theorem rejections_change_nothing_witness:
  "length (currentGuess short0) \<noteq> WORD_LENGTH \<and>
   length (concat (currentGuess short0)) \<noteq> WORD_LENGTH \<and>
   submitGuess WORDS short0 = short0\<lparr>toast := Some msg_four_letters\<rparr> \<and>
   length (currentGuess unknown0) = WORD_LENGTH \<and>
   concat (currentGuess unknown0) \<notin> set WORDS \<and>
   submitGuess WORDS unknown0 = unknown0\<lparr>toast := Some msg_not_in_list\<rparr> \<and>
   gameOver over0 \<and>
   handleKey WORDS (ascii ''enter'') over0 = over0 \<and>
   handlePhysicalKey WORDS (\<lambda>k. True) (ascii ''Enter'') over0 = over0 \<and>
   fold (handleKey WORDS) [[1586], ascii ''enter''] over0 = over0"
proof -
  have a: "length (currentGuess short0) \<noteq> WORD_LENGTH"
    "length (concat (currentGuess short0)) \<noteq> WORD_LENGTH"
    by (simp_all add: short0_def WORD_LENGTH_def)
  have b: "length (currentGuess unknown0) = WORD_LENGTH"
    "concat (currentGuess unknown0) \<notin> set WORDS"
    by (simp_all add: unknown0_def WORD_LENGTH_def WORDS_def)
  have c: "gameOver over0"
    by (simp add: over0_def)
  from a b c
    rejections_change_nothing [of short0 WORDS]
    rejections_change_nothing [of unknown0 WORDS]
    rejections_change_nothing [of over0 WORDS "ascii ''enter''" "\<lambda>k. True" "ascii ''Enter''"
      "[[1586], ascii ''enter'']"]
  show ?thesis by simp
qed

section \<open>The persisted record and restoration\<close>

lemma getDailyWord_today0: "getDailyWord WORDS legacy today0 = Some [1586, 1575, 1729, 1583]"
  by (simp add: getDailyWord_def Date_getTime_def iso_date_def Math_floor_div_def
      daysFromCivil_def today0_def js_rem_def index_at_def WORDS_def)

text \<open>
  C7. \<open>loadDailyState\<close> returns \<^verbatim>\<open>null\<close> when the storage cannot be read, when nothing is
  stored, when the stored text does not parse, and when the parsed value has no \<open>date\<close>
  equal to today's day key; it returns a value only when that value is what the stored
  text parses to and its \<open>date\<close> is today's. After a \<^verbatim>\<open>null\<close> the game starts fresh.
\<close>

theorem loadDailyState_fails_open:
  "(getItem st = Inl err \<longrightarrow> loadDailyState st today = None) \<and>
   (getItem st = Inr None \<longrightarrow> loadDailyState st today = None) \<and>
   (getItem st = Inr (Some raw) \<and> JSON_parse raw = Inl err \<longrightarrow> loadDailyState st today = None) \<and>
   (getItem st = Inr (Some raw) \<and> JSON_parse raw = Inr data \<and> date_of data \<noteq> Inr (Some today) \<longrightarrow>
      loadDailyState st today = None) \<and>
   (loadDailyState st today = Some data \<longleftrightarrow>
      getItem st = Inr (Some (Json data)) \<and> date_of data = Inr (Some today)) \<and>
   (loadDailyState st today = None \<and> getDailyWord catalog legacy today = Some w \<longrightarrow>
      startGame catalog legacy today st =
        Inr ((initial st)\<lparr>secretWord := w, secretLetters := splitUrdu w\<rparr>))"
  by (auto simp: loadDailyState_def startGame_def JSON_parse_def
      split: sum.splits option.splits item.splits if_splits)

theorem loadDailyState_fails_open_witness:
  "getItem Denied = Inl SecurityError \<and> loadDailyState Denied today0 = None \<and>
   getItem (Slot None) = Inr None \<and> loadDailyState (Slot None) today0 = None \<and>
   getItem (Slot (Some Malformed)) = Inr (Some Malformed) \<and>
   JSON_parse Malformed = Inl SyntaxError \<and>
   loadDailyState (Slot (Some Malformed)) today0 = None \<and>
   JSON_parse (Json (JObject yesterday0)) = Inr (JObject yesterday0) \<and>
   date_of (JObject yesterday0) \<noteq> Inr (Some today0) \<and>
   loadDailyState (Slot (Some (Json (JObject yesterday0)))) today0 = None \<and>
   date_of (JObject record0) = Inr (Some today0) \<and>
   loadDailyState (Slot (Some (Json (JObject record0)))) today0 = Some (JObject record0) \<and>
   getDailyWord WORDS rejecting today0 = Some [1586, 1575, 1729, 1583] \<and>
   startGame WORDS rejecting today0 (Slot (Some Malformed)) =
     Inr ((initial (Slot (Some Malformed)))
            \<lparr>secretWord := [1586, 1575, 1729, 1583], secretLetters := splitUrdu [1586, 1575, 1729, 1583]\<rparr>)"
proof -
  have g: "getItem Denied = Inl SecurityError" "getItem (Slot None) = Inr None"
    "getItem (Slot (Some Malformed)) = Inr (Some Malformed)"
    "getItem (Slot (Some (Json (JObject yesterday0)))) = Inr (Some (Json (JObject yesterday0)))"
    "getItem (Slot (Some (Json (JObject record0)))) = Inr (Some (Json (JObject record0)))"
    by (simp_all add: getItem_def)
  have p: "JSON_parse Malformed = Inl SyntaxError"
    "JSON_parse (Json (JObject yesterday0)) = Inr (JObject yesterday0)"
    by (simp_all add: JSON_parse_def)
  have d: "date_of (JObject yesterday0) \<noteq> Inr (Some today0)"
    "date_of (JObject record0) = Inr (Some today0)"
    by (simp_all add: date_of_def yesterday0_def record0_def today0_def)
  have w: "getDailyWord WORDS rejecting today0 = Some [1586, 1575, 1729, 1583]"
    by (rule getDailyWord_today0)
  from g p d w
    loadDailyState_fails_open [of Denied SecurityError today0]
    loadDailyState_fails_open [of "Slot None" _ today0]
    loadDailyState_fails_open [where st = "Slot (Some Malformed)" and err = SyntaxError
      and today = today0 and raw = Malformed and catalog = WORDS and legacy = rejecting
      and w = "[1586, 1575, 1729, 1583]"]
    loadDailyState_fails_open [of "Slot (Some (Json (JObject yesterday0)))" _ today0
      "Json (JObject yesterday0)" "JObject yesterday0"]
    loadDailyState_fails_open [of "Slot (Some (Json (JObject record0)))" _ today0 _ "JObject record0"]
  show ?thesis by simp
qed

lemma recordResult_storage:
  assumes "localStorage t = Slot x"
  shows "localStorage (recordResult today g e t) =
    Slot (Some (Json (JObject \<lparr> date = Some today, saved_attempts = Some (attempts t @ [g]),
      saved_gameOver = Some (isWin e \<or> currentRow t + 1 \<ge> MAX_ATTEMPTS),
      saved_won = Some (isWin e) \<rparr>)))"
  using assms
  by (simp add: recordResult_def Let_def markPlayed_def saveDailyState_def setItem_def
      showToast_def JSON_stringify_def)

lemma startGame_record:
  assumes "getDailyWord catalog legacy today = Some w"
  shows "startGame catalog legacy today (Slot (Some (Json (JObject
      \<lparr> date = Some today, saved_attempts = Some atts, saved_gameOver = Some over,
        saved_won = Some wn \<rparr>)))) =
    Inr (restoreState \<lparr> date = Some today, saved_attempts = Some atts, saved_gameOver = Some over,
        saved_won = Some wn \<rparr>
      ((initial (Slot (Some (Json (JObject
      \<lparr> date = Some today, saved_attempts = Some atts, saved_gameOver = Some over,
        saved_won = Some wn \<rparr>)))))\<lparr>secretWord := w, secretLetters := splitUrdu w\<rparr>))"
  using assms
  by (simp add: startGame_def loadDailyState_def getItem_def JSON_parse_def date_of_def)

text \<open>
  C2, as the code has it. \<open>restoreState\<close> takes the attempts from the record and evaluates
  each of them anew against the secret; \<open>gameOver\<close> and \<open>won\<close> it copies from the record's
  flags (false when a flag is missing), it does not derive them from the replay. When the
  result callback runs on a game that is neither over nor marked won, with the storage
  available, what it stores, loaded and restored on the same day with the same secret,
  gives a game with the attempts and the flags the game had after the callback, and with
  the replay of those attempts as its evaluations.
\<close>

theorem restore_replays_and_copies_flags:
  "attempts (restoreState sv s) = (case saved_attempts sv of None \<Rightarrow> [] | Some a \<Rightarrow> a) \<and>
   evaluations (restoreState sv s) =
     evaluations s @ map (evaluateGuess (secretLetters s)) (attempts (restoreState sv s)) \<and>
   gameOver (restoreState sv s) = (case saved_gameOver sv of None \<Rightarrow> False | Some b \<Rightarrow> b) \<and>
   won (restoreState sv s) = (case saved_won sv of None \<Rightarrow> False | Some b \<Rightarrow> b) \<and>
   (\<not> gameOver t \<and> \<not> won t \<and> localStorage t = Slot x \<and>
    getDailyWord catalog legacy today = Some (secretWord t) \<and>
    secretLetters t = splitUrdu (secretWord t) \<and>
    t' = recordResult today g e t \<longrightarrow>
      (\<exists>r. startGame catalog legacy today (localStorage t') = Inr r \<and>
           attempts r = attempts t' \<and> gameOver r = gameOver t' \<and> won r = won t' \<and>
           evaluations r = map (evaluateGuess (secretLetters t)) (attempts t')))"
proof -
  have trip: "\<exists>r. startGame catalog legacy today (localStorage t') = Inr r \<and>
           attempts r = attempts t' \<and> gameOver r = gameOver t' \<and> won r = won t' \<and>
           evaluations r = map (evaluateGuess (secretLetters t)) (attempts t')"
    if live: "\<not> gameOver t" and nw: "\<not> won t" and st: "localStorage t = Slot x"
      and w: "getDailyWord catalog legacy today = Some (secretWord t)"
      and sl: "secretLetters t = splitUrdu (secretWord t)"
      and t': "t' = recordResult today g e t"
  proof -
    let ?rec = "\<lparr> date = Some today, saved_attempts = Some (attempts t @ [g]),
      saved_gameOver = Some (isWin e \<or> currentRow t + 1 \<ge> MAX_ATTEMPTS),
      saved_won = Some (isWin e) \<rparr>"
    let ?r = "restoreState ?rec ((initial (Slot (Some (Json (JObject ?rec)))))
        \<lparr>secretWord := secretWord t, secretLetters := splitUrdu (secretWord t)\<rparr>)"
    have store: "localStorage t' = Slot (Some (Json (JObject ?rec)))"
      unfolding t' by (rule recordResult_storage [OF st])
    have start: "startGame catalog legacy today (localStorage t') = Inr ?r"
      unfolding store by (rule startGame_record [OF w])
    have a: "attempts ?r = attempts t'"
      by (simp add: restoreState_fields t' recordResult_fields)
    have f: "gameOver ?r = gameOver t'" "won ?r = won t'"
      using live nw by (simp_all add: restoreState_fields t' recordResult_fields)
    have ev: "evaluations ?r = map (evaluateGuess (secretLetters t)) (attempts t')"
      using a sl by (simp add: restoreState_fields initial_def)
    from start a f ev show ?thesis by blast
  qed
  show ?thesis
    using trip by (simp add: restoreState_fields)
qed

theorem restore_replays_and_copies_flags_witness:
  "\<not> gameOver typing0 \<and> \<not> won typing0 \<and> localStorage typing0 = Slot None \<and>
   getDailyWord WORDS rejecting today0 = Some (secretWord typing0) \<and>
   secretLetters typing0 = splitUrdu (secretWord typing0) \<and>
   (\<exists>r. startGame WORDS rejecting today0
           (localStorage (recordResult today0 [1591, 1575, 1729, 1585]
              (evaluateGuess (secretLetters typing0) [1591, 1575, 1729, 1585]) typing0)) = Inr r \<and>
        attempts r = [[1591, 1575, 1729, 1585]] \<and> \<not> gameOver r \<and> \<not> won r \<and>
        evaluations r = [[Absent, Correct, Correct, Absent]])"
proof -
  have h: "\<not> gameOver typing0" "\<not> won typing0" "localStorage typing0 = Slot None"
    "secretLetters typing0 = splitUrdu (secretWord typing0)"
    by (simp_all add: typing0_def initial_def splitUrdu_def)
  have w: "getDailyWord WORDS rejecting today0 = Some (secretWord typing0)"
    by (simp add: getDailyWord_today0 typing0_def initial_def)
  have sl: "secretLetters typing0 = [1586, 1575, 1729, 1583]"
    by (simp add: typing0_def initial_def)
  have f: "attempts typing0 = []" "currentRow typing0 = 0"
    by (simp_all add: typing0_def initial_def)
  let ?t' = "recordResult today0 [1591, 1575, 1729, 1585]
              (evaluateGuess (secretLetters typing0) [1591, 1575, 1729, 1585]) typing0"
  from restore_replays_and_copies_flags [where t = typing0 and x = None and catalog = WORDS
      and legacy = rejecting and today = today0 and g = "[1591, 1575, 1729, 1585]"
      and e = "evaluateGuess (secretLetters typing0) [1591, 1575, 1729, 1585]" and t' = ?t']
    h w
  obtain r where "startGame WORDS rejecting today0 (localStorage ?t') = Inr r"
    and "attempts r = attempts ?t'" and "gameOver r = gameOver ?t'" and "won r = won ?t'"
    and "evaluations r = map (evaluateGuess (secretLetters typing0)) (attempts ?t')"
    by blast
  then have "startGame WORDS rejecting today0 (localStorage ?t') = Inr r \<and>
        attempts r = [[1591, 1575, 1729, 1585]] \<and> \<not> gameOver r \<and> \<not> won r \<and>
        evaluations r = [[Absent, Correct, Correct, Absent]]"
    using h(1,2) f sl by (simp add: recordResult_fields evals0 isWin_def MAX_ATTEMPTS_def)
  with h w show ?thesis by blast
qed

theorem restore_trusts_flags_counterexample:
  "startGame WORDS rejecting today0 (Slot (Some (Json (JObject unfinished0)))) = Inr restored0 \<and>
   attempts restored0 = [[1586, 1575, 1729, 1583]] \<and>
   evaluations restored0 = [[Correct, Correct, Correct, Correct]] \<and>
   isWin (last (evaluations restored0)) \<and>
   \<not> gameOver restored0 \<and> \<not> won restored0 \<and> \<not> game_inv restored0"
proof -
  have w: "getDailyWord WORDS rejecting today0 = Some [1586, 1575, 1729, 1583]"
    by (rule getDailyWord_today0)
  have start: "startGame WORDS rejecting today0 (Slot (Some (Json (JObject unfinished0)))) = Inr restored0"
    unfolding unfinished0_def restored0_def
    using startGame_record [OF w] by (simp add: splitUrdu_def)
  have a: "attempts restored0 = [[1586, 1575, 1729, 1583]]"
    and f: "\<not> gameOver restored0" "\<not> won restored0"
    by (simp_all add: restored0_def restoreState_fields unfinished0_def)
  have e: "evaluations restored0 = [[Correct, Correct, Correct, Correct]]"
    by (simp add: restored0_def restoreState_fields unfinished0_def initial_def
        evaluateGuess_self WORD_LENGTH_def numeral_eq_Suc)
  have win: "isWin (last (evaluations restored0))"
    by (simp add: e isWin_def)
  from f(1) win e have "\<not> game_inv restored0"
    by (simp add: game_inv_def)
  with start a e win f show ?thesis by simp
qed

section \<open>The daily word\<close>

lemma js_rem_nonneg: "0 \<le> a \<Longrightarrow> 0 < b \<Longrightarrow> js_rem (Num a) b = Num (a mod b)"
  by (cases "a = 0") (simp_all add: js_rem_def)

lemma getDailyWord_nonneg:
  assumes "catalog \<noteq> []" and "iso_date today" and "0 \<le> daysFromCivil today"
  shows "getDailyWord catalog legacy today =
    Some (catalog ! nat (daysFromCivil today mod int (length catalog)))"
proof -
  from assms(1) have pos: "0 < int (length catalog)" by simp
  have idx: "Math_floor_div (Date_getTime legacy today) 86400000 = Num (daysFromCivil today)"
    using assms(2) by (simp add: Date_getTime_def Math_floor_div_def)
  have "0 \<le> daysFromCivil today mod int (length catalog)"
    and "daysFromCivil today mod int (length catalog) < int (length catalog)"
    using pos by simp_all
  then show ?thesis
    unfolding getDailyWord_def Let_def idx js_rem_nonneg [OF assms(3) pos]
    by (simp add: index_at_def)
qed

lemma gregorian_days_lower:
  fixes y :: int
  assumes "1969 \<le> y"
  shows "719162 \<le> (y div 400) * 146097 + (y - (y div 400) * 400) * 365
           + (y - (y div 400) * 400) div 4 - (y - (y div 400) * 400) div 100"
proof -
  define q where "q = y div 400"
  define r where "r = y - q * 400"
  have r: "0 \<le> r" "r < 400" and y: "y = q * 400 + r"
    unfolding r_def q_def by (simp_all add: minus_div_mult_eq_mod [symmetric] algebra_simps)
  have q4: "4 \<le> q" using assms unfolding q_def by simp
  have d4: "0 \<le> r div 4" and d100: "r div 100 \<le> r" using r by simp_all
  show ?thesis
  proof (cases "5 \<le> q")
    case True
    then have "730485 \<le> q * 146097" by simp
    with r d4 d100 show ?thesis unfolding q_def [symmetric] r_def [symmetric] by simp
  next
    case False
    with q4 have q: "q = 4" by simp
    with y assms have r369: "369 \<le> r" by simp
    then have "92 \<le> r div 4" by simp
    moreover have "r div 100 \<le> 3" using r by simp
    ultimately show ?thesis
      using r369 q unfolding q_def [symmetric] r_def [symmetric] by simp
  qed
qed

lemma gregorian_days_lower_1970:
  fixes y :: int
  assumes "1970 \<le> y"
  shows "719527 \<le> (y div 400) * 146097 + (y - (y div 400) * 400) * 365
           + (y - (y div 400) * 400) div 4 - (y - (y div 400) * 400) div 100"
proof -
  define q where "q = y div 400"
  define r where "r = y - q * 400"
  have r: "0 \<le> r" "r < 400" and y: "y = q * 400 + r"
    unfolding r_def q_def by (simp_all add: minus_div_mult_eq_mod [symmetric] algebra_simps)
  have q4: "4 \<le> q" using assms unfolding q_def by simp
  have d4: "0 \<le> r div 4" and d100: "r div 100 \<le> r" using r by simp_all
  show ?thesis
  proof (cases "5 \<le> q")
    case True
    then have "730485 \<le> q * 146097" by simp
    with r d4 d100 show ?thesis unfolding q_def [symmetric] r_def [symmetric] by simp
  next
    case False
    with q4 have q: "q = 4" by simp
    with y assms have r370: "370 \<le> r" by simp
    then have "92 \<le> r div 4" by simp
    moreover have "r div 100 \<le> 3" using r by simp
    ultimately show ?thesis
      using r370 q unfolding q_def [symmetric] r_def [symmetric] by simp
  qed
qed

lemma epoch_day_nonneg:
  assumes "1970 \<le> year k" and "1 \<le> month k" and "1 \<le> day k"
  shows "0 \<le> daysFromCivil k"
proof (cases "month k \<le> 2")
  case True
  let ?y = "int (year k) - 1"
  have y: "1969 \<le> ?y" using assms(1) by simp
  have "(153 * (int (month k) + 9) + 2) div 5 \<ge> 306"
    using assms(2) by simp
  with gregorian_days_lower [OF y] assms(3) True show ?thesis
    unfolding daysFromCivil_def Let_def by simp
next
  case False
  let ?y = "int (year k)"
  have y: "1970 \<le> ?y" using assms(1) by simp
  have "(153 * (int (month k) - 3) + 2) div 5 \<ge> 0"
    using False by simp
  with gregorian_days_lower_1970 [OF y] assms(3) False show ?thesis
    unfolding daysFromCivil_def Let_def by simp
qed

text \<open>
  What the claim says holds from 1970-01-01 to the end of the year 9999: the word is the
  catalog's entry at the epoch day modulo the catalog's length.
\<close>

lemma getDailyWord_from_1970:
  assumes "catalog \<noteq> []" and "1970 \<le> year today" and "year today \<le> 9999"
    and "1 \<le> month today" and "1 \<le> day today"
  shows "getDailyWord catalog legacy today =
    Some (catalog ! nat (daysFromCivil today mod int (length catalog)))"
  using assms by (intro getDailyWord_nonneg epoch_day_nonneg) (simp_all add: iso_date_def)

text \<open>
  C4. The claim does not hold of the program for a day before 1970, where the epoch day is
  negative: \<^verbatim>\<open>%\<close> gives a remainder with the sign of the day count, the index is negative
  and \<open>getDailyWord\<close> returns \<^verbatim>\<open>undefined\<close>. At the day key 1969-12-31 (what the reference
  time zone shows during the first hours of 1970-01-01 UTC) the epoch day is -1, the claim's
  word is the catalog's entry 19, and the program has none: start-up ends with a
  \<^verbatim>\<open>TypeError\<close>.
\<close>

theorem daily_word_before_epoch:
  "WORDS \<noteq> [] \<and> iso_date (DayKey 1969 12 31) \<and>
   daysFromCivil (DayKey 1969 12 31) = - 1 \<and>
   nat (daysFromCivil (DayKey 1969 12 31) mod int (length WORDS)) = 19 \<and>
   WORDS ! 19 = [1586, 1575, 1729, 1583] \<and>
   js_rem (Num (daysFromCivil (DayKey 1969 12 31))) (int (length WORDS)) = Num (- 1) \<and>
   getDailyWord WORDS legacy (DayKey 1969 12 31) = None \<and>
   startGame WORDS legacy (DayKey 1969 12 31) st = Inl TypeError"
proof -
  have d: "daysFromCivil (DayKey 1969 12 31) = - 1"
    by (simp add: daysFromCivil_def)
  have l: "length WORDS = 20" "WORDS ! 19 = [1586, 1575, 1729, 1583]"
    by (simp_all add: WORDS_def)
  have i: "iso_date (DayKey 1969 12 31)"
    by (simp add: iso_date_def)
  have r: "js_rem (Num (- 1)) 20 = Num (- 1)"
    by (simp add: js_rem_def)
  have g: "getDailyWord WORDS legacy (DayKey 1969 12 31) = None"
    by (simp add: getDailyWord_def Date_getTime_def i Math_floor_div_def d l r index_at_def)
  then have "startGame WORDS legacy (DayKey 1969 12 31) st = Inl TypeError"
    by (simp add: startGame_def)
  moreover have "WORDS \<noteq> []"
    by (simp add: WORDS_def)
  ultimately show ?thesis
    using d l i r g by simp
qed

text \<open>
  C5, as the code has it. With an empty catalog \<open>getDailyWord\<close> raises nothing: it returns
  \<^verbatim>\<open>undefined\<close>, for every day key. Start-up then ends with the \<^verbatim>\<open>TypeError\<close> of splitting
  an \<^verbatim>\<open>undefined\<close> word into letters.
\<close>

theorem empty_catalog_gives_undefined:
  "getDailyWord [] legacy today = None \<and> startGame [] legacy today st = Inl TypeError"
proof -
  have "js_rem x 0 = NaN" for x
    by (cases x) (simp_all add: js_rem_def)
  then show ?thesis
    by (simp add: getDailyWord_def index_at_def startGame_def)
qed

theorem empty_catalog_counterexample:
  "getDailyWord [] rejecting (DayKey 2026 11 2) = None \<and>
   startGame [] rejecting (DayKey 2026 11 2) (Slot None) \<noteq> Inl ConfigurationError"
proof -
  have "js_rem x 0 = NaN" for x
    by (cases x) (simp_all add: js_rem_def)
  then show ?thesis
    by (simp add: getDailyWord_def index_at_def startGame_def)
qed

section \<open>The hint icon\<close>

text \<open>
  C10. The hint icon gives the secret away. A click that takes the counter above
  \<open>HINT_MAGIC_NUMBER\<close> shows the message \<^verbatim>\<open>'jawab is '\<close> followed by the secret word and sets
  the counter back to 0; from a counter at 0 the nineteenth click is such a click, whether
  the game is over or not, and clicking changes neither the secret nor the state of play.
\<close>

lemma handleHintClick_keeps:
  "secretWord (handleHintClick s) = secretWord s"
  "gameOver (handleHintClick s) = gameOver s"
  "attempts (handleHintClick s) = attempts s"
  by (simp_all add: handleHintClick_def showToast_def Let_def)

lemma hint_clicks_count:
  "hintClickCount s = 0 \<Longrightarrow> n \<le> HINT_MAGIC_NUMBER \<Longrightarrow>
   hintClickCount ((handleHintClick ^^ n) s) = n \<and>
   secretWord ((handleHintClick ^^ n) s) = secretWord s \<and>
   gameOver ((handleHintClick ^^ n) s) = gameOver s \<and>
   attempts ((handleHintClick ^^ n) s) = attempts s"
proof (induction n)
  case 0
  then show ?case by simp
next
  case (Suc n)
  then have "hintClickCount ((handleHintClick ^^ n) s) = n" and "n < HINT_MAGIC_NUMBER"
    by simp_all
  then have "hintClickCount (handleHintClick ((handleHintClick ^^ n) s)) = Suc n"
    by (simp add: handleHintClick_def showToast_def Let_def)
  with Suc show ?case by (simp add: handleHintClick_keeps)
qed

theorem hint_reveals_secret:
  "(hintClickCount s + 1 > HINT_MAGIC_NUMBER \<longrightarrow>
      toast (handleHintClick s) = Some (ascii ''jawab is '' @ secretWord s) \<and>
      hintClickCount (handleHintClick s) = 0) \<and>
   (hintClickCount s = 0 \<longrightarrow>
      toast ((handleHintClick ^^ (HINT_MAGIC_NUMBER + 1)) s) = Some (ascii ''jawab is '' @ secretWord s) \<and>
      hintClickCount ((handleHintClick ^^ (HINT_MAGIC_NUMBER + 1)) s) = 0 \<and>
      gameOver ((handleHintClick ^^ (HINT_MAGIC_NUMBER + 1)) s) = gameOver s \<and>
      attempts ((handleHintClick ^^ (HINT_MAGIC_NUMBER + 1)) s) = attempts s)"
proof -
  have one: "\<And>t. hintClickCount t + 1 > HINT_MAGIC_NUMBER \<Longrightarrow>
      toast (handleHintClick t) = Some (ascii ''jawab is '' @ secretWord t) \<and>
      hintClickCount (handleHintClick t) = 0"
    by (simp add: handleHintClick_def showToast_def Let_def)
  have many: "hintClickCount s = 0 \<Longrightarrow>
      toast ((handleHintClick ^^ (HINT_MAGIC_NUMBER + 1)) s) = Some (ascii ''jawab is '' @ secretWord s) \<and>
      hintClickCount ((handleHintClick ^^ (HINT_MAGIC_NUMBER + 1)) s) = 0 \<and>
      gameOver ((handleHintClick ^^ (HINT_MAGIC_NUMBER + 1)) s) = gameOver s \<and>
      attempts ((handleHintClick ^^ (HINT_MAGIC_NUMBER + 1)) s) = attempts s"
  proof -
    assume z: "hintClickCount s = 0"
    let ?t = "(handleHintClick ^^ HINT_MAGIC_NUMBER) s"
    from hint_clicks_count [OF z order_refl]
    have t: "hintClickCount ?t = HINT_MAGIC_NUMBER" "secretWord ?t = secretWord s"
      "gameOver ?t = gameOver s" "attempts ?t = attempts s"
      by simp_all
    from one [of ?t] t show ?thesis
      by (simp add: handleHintClick_keeps)
  qed
  from one [of s] many show ?thesis by blast
qed

theorem hint_reveals_secret_witness:
  "hintClickCount (typing0\<lparr>hintClickCount := 18\<rparr>) + 1 > HINT_MAGIC_NUMBER \<and>
   toast (handleHintClick (typing0\<lparr>hintClickCount := 18\<rparr>)) =
     Some (ascii ''jawab is '' @ [1586, 1575, 1729, 1583]) \<and>
   hintClickCount typing0 = 0 \<and> \<not> gameOver typing0 \<and>
   toast ((handleHintClick ^^ (HINT_MAGIC_NUMBER + 1)) typing0) =
     Some (ascii ''jawab is '' @ [1586, 1575, 1729, 1583]) \<and>
   \<not> gameOver ((handleHintClick ^^ (HINT_MAGIC_NUMBER + 1)) typing0)"
proof -
  have h: "hintClickCount (typing0\<lparr>hintClickCount := 18\<rparr>) + 1 > HINT_MAGIC_NUMBER"
    "hintClickCount typing0 = 0" "\<not> gameOver typing0"
    "secretWord typing0 = [1586, 1575, 1729, 1583]"
    by (simp_all add: typing0_def initial_def HINT_MAGIC_NUMBER_def)
  from h hint_reveals_secret [of "typing0\<lparr>hintClickCount := 18\<rparr>"] hint_reveals_secret [of typing0]
  show ?thesis by simp
qed

end
